theory Spec2Isabelle
  imports Complex_Main "HOL-Library.Log_Nat"
begin

section \<open>The balance engine: data model\<close>

text \<open>
  The embedding follows \<^verbatim>\<open>src/lib/balance-engine.ts\<close>. An optional field
  (\<^verbatim>\<open>contact?\<close>) is an \<^typ>\<open>'a option\<close>, with \<^term>\<open>None\<close> for \<^verbatim>\<open>undefined\<close>. A
  string-literal union is a datatype.

  A JavaScript \<^verbatim>\<open>number\<close> is read in two ways, and the record of a transaction is
  polymorphic in the type \<open>'n\<close> of its amount for that reason. Read as an exact
  \<^typ>\<open>real\<close>, it gives the ledger arithmetic: which transactions are selected and with
  which sign they are posted. Read as an IEEE-754 binary64 value (the type \<open>number\<close>
  below), it gives the arithmetic the program runs, with rounding, infinities and
  \<^verbatim>\<open>NaN\<close>. The functions over \<open>number\<close> carry the suffix \<open>_f64\<close>; they are the same
  code, with \<open>fadd\<close> and \<open>fsub\<close> for \<^verbatim>\<open>+\<close> and \<^verbatim>\<open>-\<close>.

  Isabelle records share one name space for their fields, so the fields \<^verbatim>\<open>id\<close>,
  \<^verbatim>\<open>date\<close>, \<^verbatim>\<open>type\<close>, \<^verbatim>\<open>name\<close> and \<^verbatim>\<open>amount\<close>, which several interfaces
  have, carry a suffix: \<open>_t\<close> for a transaction, \<open>_a\<close> for an account, \<open>_i\<close> for an
  invoice.
\<close>

datatype TransactionType = TxnIncome | TxnExpense | TxnTransfer

datatype ContactType = Customer | Vendor

datatype AccountType = Asset | Liability | Equity | Revenue | Expense

datatype InvoiceStatus = Draft | Sent | Paid | Overdue

record 'n Transaction =
  id_t :: string
  date_t :: string
  description :: string
  amount :: 'n
  type_t :: TransactionType
  debitAccount :: string
  creditAccount :: string
  category :: "string option"
  contact :: "string option"
  contactType :: "ContactType option"



section \<open>Account balances\<close>

text \<open>
  \<^verbatim>\<open>["asset", "expense"].includes(accountType)\<close>: membership in the two-element array.
\<close>

definition isDebitNormal :: "AccountType \<Rightarrow> bool" where
  "isDebitNormal accountType = (accountType \<in> set [Asset, Expense])"

text \<open>
  One pass of the body of the \<^verbatim>\<open>for\<close> loop of \<^verbatim>\<open>calculateAccountBalance\<close>: the debit
  test and then, on the updated balance, the credit test.
\<close>

definition postTransaction :: "string \<Rightarrow> AccountType \<Rightarrow> real \<Rightarrow> real Transaction \<Rightarrow> real" where
  "postTransaction accountId accountType bal transaction =
     (let b1 = (if debitAccount transaction = accountId
                then (if isDebitNormal accountType
                      then bal + amount transaction
                      else bal - amount transaction)
                else bal);
          b2 = (if creditAccount transaction = accountId
                then (if isDebitNormal accountType
                      then b1 - amount transaction
                      else b1 + amount transaction)
                else b1)
      in b2)"

fun balanceLoop :: "string \<Rightarrow> AccountType \<Rightarrow> real Transaction list \<Rightarrow> real \<Rightarrow> real" where
  "balanceLoop accountId accountType [] bal = bal"
| "balanceLoop accountId accountType (transaction # rest) bal =
     balanceLoop accountId accountType rest
       (postTransaction accountId accountType bal transaction)"

definition calculateAccountBalance :: "string \<Rightarrow> AccountType \<Rightarrow> real Transaction list \<Rightarrow> real" where
  "calculateAccountBalance accountId accountType transactions =
     balanceLoop accountId accountType transactions 0"





section \<open>Contact balances\<close>


text \<open>
  \<^verbatim>\<open>description.toLowerCase().includes("payment")\<close>. A description is a list of
  bytes (its UTF-8 encoding). \<^verbatim>\<open>toLowerCase\<close> maps each of the letters \<open>A\<close> to \<open>Z\<close>
  to its lower-case letter; it maps no character outside ASCII to one of the letters of
  \<open>payment\<close>, and the bytes of such a character are not ASCII, so they are left as they
  are. \<^verbatim>\<open>includes\<close> (here \<open>includes_str\<close>, the name being a keyword) looks for a
  position at which the search string starts.
\<close>

definition toLowerChar :: "char \<Rightarrow> char" where
  "toLowerChar c =
     (case map_of (zip ''ABCDEFGHIJKLMNOPQRSTUVWXYZ'' ''abcdefghijklmnopqrstuvwxyz'') c of
        Some l \<Rightarrow> l
      | None \<Rightarrow> c)"

definition toLowerCase :: "string \<Rightarrow> string" where
  "toLowerCase s = map toLowerChar s"

fun includes_str :: "string \<Rightarrow> string \<Rightarrow> bool" where
  "includes_str [] searchString = (searchString = [])"
| "includes_str (c # cs) searchString =
     (take (length searchString) (c # cs) = searchString \<or> includes_str cs searchString)"

definition calculateVendorBalance :: "string \<Rightarrow> real Transaction list \<Rightarrow> real" where
  "calculateVendorBalance vendorId transactions =
     (let bal0 = 0;
          vendorExpenses =
            filter (\<lambda>txn. contact txn = Some vendorId \<and> contactType txn = Some Vendor
                          \<and> type_t txn = TxnExpense) transactions;
          bal1 = bal0 + foldl (\<lambda>sum txn. sum + amount txn) 0 vendorExpenses;
          vendorPayments =
            filter (\<lambda>txn. contact txn = Some vendorId \<and> contactType txn = Some Vendor
                          \<and> includes_str (toLowerCase (description txn)) ''payment'') transactions;
          bal2 = bal1 - foldl (\<lambda>sum txn. sum + amount txn) 0 vendorPayments
      in bal2)"

section \<open>Summary by type and the accounting equation\<close>

record AccountTypeSummary =
  asset :: real
  liability :: real
  equity :: real
  revenue :: real
  expense :: real







section \<open>IEEE-754 binary64 numbers\<close>

text \<open>
  A \<^verbatim>\<open>number\<close> is a finite double, an infinity or \<^verbatim>\<open>NaN\<close>. A finite double is
  given by its value, so the two zeros, which \<^verbatim>\<open>===\<close> and \<^verbatim>\<open><\<close> do not tell apart,
  are one value. The constructor \<open>Num\<close> takes any real; the doubles are the reals that
  the rounding \<open>rnd\<close> below leaves as they are, and every sum is rounded.
\<close>

datatype number = Num real | PosInf | NegInf | NaN

text \<open>
  The binary exponent of a non-zero real, \<open>\<lfloor>log\<^sub>2 \<bar>x\<bar>\<rfloor>\<close>, computed from the bit length of
  an integer: of \<open>\<lfloor>\<bar>x\<bar>\<rfloor>\<close> when \<open>1 \<le> \<bar>x\<bar>\<close>, of \<open>\<lceil>1 / \<bar>x\<bar>\<rceil> - 1\<close> otherwise.
\<close>

definition expo :: "real \<Rightarrow> int" where
  "expo x = (if 1 \<le> \<bar>x\<bar> then bitlen \<lfloor>\<bar>x\<bar>\<rfloor> - 1 else - bitlen (\<lceil>1 / \<bar>x\<bar>\<rceil> - 1))"

text \<open>Rounding to the nearest integer, a tie going to the even one.\<close>

definition roundHalfEven :: "real \<Rightarrow> int" where
  "roundHalfEven x =
     (let n = \<lfloor>x\<rfloor>; r = x - of_int n
      in if r < 1 / 2 then n else if 1 / 2 < r then n + 1 else if even n then n else n + 1)"

text \<open>
  Rounding a real to binary64, to nearest with ties to even. The doubles around \<open>x\<close>
  are the multiples of \<open>2\<^sup>e\<close>, where \<open>e\<close> is the exponent of \<open>x\<close> less the 52 fraction
  bits and at least \<open>-1074\<close> (the subnormal spacing). A magnitude of
  \<open>2\<^sup>1\<^sup>0\<^sup>2\<^sup>4 - 2\<^sup>9\<^sup>7\<^sup>0\<close> or more, half a step above the largest double, overflows to an
  infinity. A decimal literal of the source denotes the rounding of its value:
  \<^verbatim>\<open>0.01\<close> is \<open>rnd 0.01\<close>.
\<close>

definition rnd :: "real \<Rightarrow> number" where
  "rnd x =
     (if x = 0 then Num 0
      else if 2 ^ 1024 - 2 ^ 970 \<le> \<bar>x\<bar> then (if 0 < x then PosInf else NegInf)
      else (let e = max (expo x - 52) (- 1074)
            in Num (of_int (roundHalfEven (x / 2 powi e)) * 2 powi e)))"

fun fneg :: "number \<Rightarrow> number" where
  "fneg (Num x) = Num (- x)"
| "fneg PosInf = NegInf"
| "fneg NegInf = PosInf"
| "fneg NaN = NaN"

text \<open>
  \<^verbatim>\<open>a + b\<close>: the exact sum of two finite doubles, rounded; \<^verbatim>\<open>NaN\<close> is absorbing and
  the sum of opposite infinities is \<^verbatim>\<open>NaN\<close>. \<^verbatim>\<open>a - b\<close> is \<^verbatim>\<open>a + (-b)\<close>.
\<close>

fun fadd :: "number \<Rightarrow> number \<Rightarrow> number" where
  "fadd (Num x) (Num y) = rnd (x + y)"
| "fadd NaN b = NaN"
| "fadd a NaN = NaN"
| "fadd PosInf NegInf = NaN"
| "fadd NegInf PosInf = NaN"
| "fadd PosInf b = PosInf"
| "fadd NegInf b = NegInf"
| "fadd a PosInf = PosInf"
| "fadd a NegInf = NegInf"

definition fsub :: "number \<Rightarrow> number \<Rightarrow> number" where
  "fsub a b = fadd a (fneg b)"

text \<open>\<^verbatim>\<open>Math.abs\<close> and \<^verbatim>\<open><\<close>; a comparison with \<^verbatim>\<open>NaN\<close> is false.\<close>

fun fabs :: "number \<Rightarrow> number" where
  "fabs (Num x) = Num \<bar>x\<bar>"
| "fabs PosInf = PosInf"
| "fabs NegInf = PosInf"
| "fabs NaN = NaN"

fun flt :: "number \<Rightarrow> number \<Rightarrow> bool" where
  "flt (Num x) (Num y) = (x < y)"
| "flt NaN b = False"
| "flt a NaN = False"
| "flt PosInf b = False"
| "flt a NegInf = False"
| "flt NegInf b = True"
| "flt a PosInf = True"

text \<open>
  \<^verbatim>\<open>Number.isFinite\<close>, the value of a finite number, and \<^verbatim>\<open>Number.isInteger\<close>.
\<close>

fun isFinite :: "number \<Rightarrow> bool" where
  "isFinite (Num x) = True"
| "isFinite a = False"

fun valof :: "number \<Rightarrow> real" where
  "valof (Num x) = x"
| "valof a = 0"

fun isInteger :: "number \<Rightarrow> bool" where
  "isInteger (Num x) = (of_int \<lfloor>x\<rfloor> = x)"
| "isInteger a = False"

section \<open>The engine over binary64 numbers\<close>

text \<open>
  \<^verbatim>\<open>calculateAccountBalance\<close> as it runs: \<^verbatim>\<open>balance += amount\<close> and
  \<^verbatim>\<open>balance -= amount\<close> round after each step, starting from \<^verbatim>\<open>0\<close>.
\<close>

definition postTransaction_f64 ::
  "string \<Rightarrow> AccountType \<Rightarrow> number \<Rightarrow> number Transaction \<Rightarrow> number" where
  "postTransaction_f64 accountId accountType bal transaction =
     (let b1 = (if debitAccount transaction = accountId
                then (if isDebitNormal accountType
                      then fadd bal (amount transaction)
                      else fsub bal (amount transaction))
                else bal);
          b2 = (if creditAccount transaction = accountId
                then (if isDebitNormal accountType
                      then fsub b1 (amount transaction)
                      else fadd b1 (amount transaction))
                else b1)
      in b2)"

fun balanceLoop_f64 ::
  "string \<Rightarrow> AccountType \<Rightarrow> number Transaction list \<Rightarrow> number \<Rightarrow> number" where
  "balanceLoop_f64 accountId accountType [] bal = bal"
| "balanceLoop_f64 accountId accountType (transaction # rest) bal =
     balanceLoop_f64 accountId accountType rest
       (postTransaction_f64 accountId accountType bal transaction)"

definition calculateAccountBalance_f64 ::
  "string \<Rightarrow> AccountType \<Rightarrow> number Transaction list \<Rightarrow> number" where
  "calculateAccountBalance_f64 accountId accountType transactions =
     balanceLoop_f64 accountId accountType transactions (Num 0)"

text \<open>\<^verbatim>\<open>calculateVendorBalance\<close> as it runs: two rounded totals, then their difference.\<close>

definition calculateVendorBalance_f64 :: "string \<Rightarrow> number Transaction list \<Rightarrow> number" where
  "calculateVendorBalance_f64 vendorId transactions =
     (let bal0 = Num 0;
          vendorExpenses =
            filter (\<lambda>txn. contact txn = Some vendorId \<and> contactType txn = Some Vendor
                          \<and> type_t txn = TxnExpense) transactions;
          bal1 = fadd bal0 (foldl (\<lambda>sum txn. fadd sum (amount txn)) (Num 0) vendorExpenses);
          vendorPayments =
            filter (\<lambda>txn. contact txn = Some vendorId \<and> contactType txn = Some Vendor
                          \<and> includes_str (toLowerCase (description txn)) ''payment'') transactions;
          bal2 = fsub bal1 (foldl (\<lambda>sum txn. fadd sum (amount txn)) (Num 0) vendorPayments)
      in bal2)"

text \<open>
  \<^verbatim>\<open>validateTransactionBalance\<close>: both totals are the same \<^verbatim>\<open>reduce\<close> over
  \<^verbatim>\<open>amount\<close>; the field \<^verbatim>\<open>difference\<close> is called \<open>difference_v\<close>.
\<close>

record ValidationResult =
  isValid :: bool
  totalDebits :: number
  totalCredits :: number
  difference_v :: number

definition validateTransactionBalance_f64 :: "number Transaction list \<Rightarrow> ValidationResult" where
  "validateTransactionBalance_f64 transactions =
     (let totalDebits' = foldl (\<lambda>sum txn. fadd sum (amount txn)) (Num 0) transactions;
          totalCredits' = foldl (\<lambda>sum txn. fadd sum (amount txn)) (Num 0) transactions;
          difference = fabs (fsub totalDebits' totalCredits')
      in \<lparr>isValid = flt difference (rnd 0.01),
          totalDebits = totalDebits',
          totalCredits = totalCredits',
          difference_v = difference\<rparr>)"

text \<open>
  A ledger of whole amounts: every amount is an integer and the magnitudes of the amounts
  add up to less than \<open>2\<^sup>5\<^sup>2\<close>. On such a ledger no step of the engine rounds. The
  exact reading of a transaction replaces its amount by the value of the amount.
\<close>

definition wholeLedger :: "number Transaction list \<Rightarrow> bool" where
  "wholeLedger transactions =
     (list_all (\<lambda>txn. isInteger (amount txn)) transactions
      \<and> (\<Sum>txn\<leftarrow>transactions. \<bar>valof (amount txn)\<bar>) < 2 ^ 52)"

definition exactTransaction :: "number Transaction \<Rightarrow> real Transaction" where
  "exactTransaction txn =
     \<lparr>id_t = id_t txn, date_t = date_t txn, description = description txn,
      amount = valof (amount txn), type_t = type_t txn,
      debitAccount = debitAccount txn, creditAccount = creditAccount txn,
      category = category txn, contact = contact txn, contactType = contactType txn\<rparr>"

section \<open>A sample ledger\<close>

definition mkTxn ::
  "string \<Rightarrow> string \<Rightarrow> 'n \<Rightarrow> TransactionType \<Rightarrow> string \<Rightarrow> string \<Rightarrow>
   string option \<Rightarrow> ContactType option \<Rightarrow> 'n Transaction" where
  "mkTxn i descr amt ty debit credit who kind =
     \<lparr>id_t = i, date_t = ''2024-01-15'', description = descr, amount = amt, type_t = ty,
      debitAccount = debit, creditAccount = credit,
      category = None, contact = who, contactType = kind\<rparr>"



section \<open>Properties of the account balance\<close>

text \<open>The signed amount one transaction posts to an account, read off the loop body.\<close>

lemma postTransaction_delta:
  "postTransaction accountId accountType bal t =
     bal + postTransaction accountId accountType 0 t"
  by (simp add: postTransaction_def Let_def)

lemma balanceLoop_acc:
  "balanceLoop accountId accountType ts bal =
     bal + (\<Sum>t\<leftarrow>ts. postTransaction accountId accountType 0 t)"
proof (induction ts arbitrary: bal)
  case Nil
  show ?case by simp
next
  case (Cons t ts)
  have "balanceLoop accountId accountType (t # ts) bal =
          postTransaction accountId accountType bal t +
          (\<Sum>u\<leftarrow>ts. postTransaction accountId accountType 0 u)"
    by (simp add: Cons.IH)
  also have "\<dots> = bal + (\<Sum>u\<leftarrow>t # ts. postTransaction accountId accountType 0 u)"
    using postTransaction_delta [of accountId accountType bal t] by simp
  finally show ?case .
qed

lemma calculateAccountBalance_sum:
  "calculateAccountBalance accountId accountType ts =
     (\<Sum>t\<leftarrow>ts. postTransaction accountId accountType 0 t)"
  by (simp add: calculateAccountBalance_def balanceLoop_acc)


lemma postTransaction_same_account:
  "debitAccount t = creditAccount t \<Longrightarrow> postTransaction accountId accountType 0 t = 0"
  by (simp add: postTransaction_def Let_def)

section \<open>Substring search and sums\<close>



lemma foldl_amount:
  "foldl (\<lambda>sum txn. sum + amount txn) (b::real) ts = b + (\<Sum>t\<leftarrow>ts. amount t)"
  by (induction ts arbitrary: b) simp_all



lemma calculateVendorBalance_sum:
  "calculateVendorBalance vendorId ts =
     (\<Sum>t\<leftarrow>filter (\<lambda>txn. contact txn = Some vendorId \<and> contactType txn = Some Vendor
                          \<and> type_t txn = TxnExpense) ts. amount t)
   - (\<Sum>t\<leftarrow>filter (\<lambda>txn. contact txn = Some vendorId \<and> contactType txn = Some Vendor
                          \<and> includes_str (toLowerCase (description txn)) ''payment'') ts. amount t)"
  by (simp add: calculateVendorBalance_def Let_def foldl_amount)






section \<open>Summary and balance-map lemmas\<close>










section \<open>Binary64 arithmetic\<close>

text \<open>
  The definitions of the number model meet their specifications: \<open>roundHalfEven\<close>
  returns an integer at distance at most one half, \<open>expo x\<close> is the exponent \<open>e\<close> with
  \<open>2\<^sup>e \<le> \<bar>x\<bar> < 2\<^sup>e\<^sup>+\<^sup>1\<close>, and rounding leaves an integer below \<open>2\<^sup>5\<^sup>3\<close> in magnitude, or
  a power of two up to \<open>2\<^sup>1\<^sup>0\<^sup>2\<^sup>3\<close>, as it is. The rules collected in \<open>f64_eval\<close> evaluate
  the model on literals.
\<close>

lemma bitlen_one: "bitlen 1 = 1"
  by (subst compute_bitlen) simp

lemma bitlen_numeral: "bitlen (numeral n) = bitlen (numeral n div 2) + 1"
  by (subst compute_bitlen) simp

lemma roundHalfEven_of_int: "roundHalfEven (of_int k) = k"
  by (simp add: roundHalfEven_def)

lemma roundHalfEven_nearest: "\<bar>x - of_int (roundHalfEven x)\<bar> \<le> 1 / 2"
  unfolding roundHalfEven_def Let_def by (simp split: if_splits)

lemma expo_bounds:
  assumes "x \<noteq> 0"
  shows "2 powi expo x \<le> \<bar>x\<bar> \<and> \<bar>x\<bar> < 2 powi (expo x + 1)"
proof (cases "1 \<le> \<bar>x\<bar>")
  case True
  define n where "n = \<lfloor>\<bar>x\<bar>\<rfloor>"
  from True have n: "0 < n" unfolding n_def by linarith
  from bitlen_bounds [OF n] have lo: "2 ^ nat (bitlen n - 1) \<le> n" and hi: "n < 2 ^ nat (bitlen n)"
    by simp_all
  from n have b: "1 \<le> bitlen n" by (simp add: bitlen_alt_def)
  have e: "expo x = bitlen n - 1" using True by (simp add: expo_def n_def)
  have "real_of_int (2 ^ nat (bitlen n - 1)) \<le> real_of_int n" using lo by linarith
  also have "\<dots> \<le> \<bar>x\<bar>" unfolding n_def by linarith
  finally have 1: "2 powi expo x \<le> \<bar>x\<bar>"
    using b by (simp add: e power_int_def)
  have "\<bar>x\<bar> < real_of_int n + 1" unfolding n_def by linarith
  also have "\<dots> \<le> real_of_int (2 ^ nat (bitlen n))" using hi by linarith
  finally have 2: "\<bar>x\<bar> < 2 powi (expo x + 1)"
    using b by (simp add: e power_int_def)
  from 1 2 show ?thesis ..
next
  case False
  define r where "r = 1 / \<bar>x\<bar>"
  define m where "m = \<lceil>r\<rceil> - 1"
  from False assms have x: "0 < \<bar>x\<bar>" "\<bar>x\<bar> < 1" by simp_all
  then have r: "1 < r" unfolding r_def by simp
  then have m: "0 < m" unfolding m_def by linarith
  from bitlen_bounds [OF m] have lo: "2 ^ nat (bitlen m - 1) \<le> m" and hi: "m < 2 ^ nat (bitlen m)"
    by simp_all
  from m have b: "1 \<le> bitlen m" by (simp add: bitlen_alt_def)
  have e: "expo x = - bitlen m" using False by (simp add: expo_def m_def r_def)
  have "r \<le> real_of_int m + 1" unfolding m_def by linarith
  also have "\<dots> \<le> real_of_int (2 ^ nat (bitlen m))" using hi by linarith
  finally have "r \<le> 2 ^ nat (bitlen m)" by simp
  then have "1 / 2 ^ nat (bitlen m) \<le> \<bar>x\<bar>"
    using x unfolding r_def by (simp add: field_simps)
  then have 1: "2 powi expo x \<le> \<bar>x\<bar>"
    using b by (simp add: e power_int_def field_simps)
  have "real_of_int (2 ^ nat (bitlen m - 1)) \<le> real_of_int m" using lo by linarith
  also have "\<dots> < r" unfolding m_def by linarith
  finally have "2 ^ nat (bitlen m - 1) < r" by simp
  then have "\<bar>x\<bar> < 1 / 2 ^ nat (bitlen m - 1)"
    using x unfolding r_def by (simp add: field_simps)
  moreover have "expo x + 1 = - int (nat (bitlen m - 1))" using b e by simp
  then have "2 powi (expo x + 1) = 1 / (2::real) ^ nat (bitlen m - 1)"
    by (simp only: power_int_minus power_int_of_nat inverse_eq_divide)
  ultimately have 2: "\<bar>x\<bar> < 2 powi (expo x + 1)" by simp
  from 1 2 show ?thesis ..
qed


lemma rnd_of_int:
  assumes "\<bar>k\<bar> < 2 ^ 53"
  shows "rnd (of_int k) = Num (of_int k)"
proof (cases "k = 0")
  case True
  then show ?thesis by (simp add: rnd_def)
next
  case False
  define b where "b = bitlen \<bar>k\<bar>"
  define d where "d = nat (53 - b)"
  from False have k: "0 < \<bar>k\<bar>" by simp
  from bitlen_bounds [OF k] have lo: "2 ^ nat (b - 1) \<le> \<bar>k\<bar>"
    unfolding b_def by simp
  from k have b1: "1 \<le> b" unfolding b_def by (simp add: bitlen_alt_def)
  have "nat (b - 1) < 53"
  proof (rule ccontr)
    assume "\<not> nat (b - 1) < 53"
    then have "(2::int) ^ 53 \<le> 2 ^ nat (b - 1)" by (intro power_increasing) simp_all
    with lo assms show False by linarith
  qed
  with b1 have b53: "b \<le> 53" by linarith
  have one: "1 \<le> \<bar>real_of_int k\<bar>" using k by linarith
  have fl: "\<lfloor>\<bar>real_of_int k\<bar>\<rfloor> = \<bar>k\<bar>"
    by (metis floor_of_int of_int_abs)
  have ex: "expo (of_int k) = b - 1"
    using one by (simp add: expo_def fl b_def)
  have e: "max (expo (real_of_int k) - 52) (- 1074) = - int d"
    using b1 b53 by (simp add: ex d_def)
  have scale: "real_of_int k / 2 powi (- int d) = of_int (k * 2 ^ d)"
    by (simp add: power_int_minus field_simps)
  have unscale: "real_of_int (k * 2 ^ d) * 2 powi (- int d) = of_int k"
    by (simp add: power_int_minus field_simps)
  have small: "\<not> 2 ^ 1024 - 2 ^ 970 \<le> \<bar>real_of_int k\<bar>"
  proof -
    have "\<bar>real_of_int k\<bar> < 2 ^ 53"
      using assms by (metis of_int_abs of_int_less_numeral_power_cancel_iff)
    also have "(2::real) ^ 53 \<le> 2 ^ 970 * (2 ^ 54 - 1)" by simp
    also have "\<dots> = 2 ^ 1024 - 2 ^ 970" by (simp add: algebra_simps flip: power_add)
    finally show ?thesis by simp
  qed
  show ?thesis
    using False small
    by (simp add: rnd_def Let_def e roundHalfEven_of_int scale unscale del: of_int_mult of_int_power)
qed


lemma rnd_whole:
  assumes "of_int \<lfloor>x\<rfloor> = x" and "\<bar>x\<bar> < 2 ^ 53"
  shows "rnd x = Num x"
proof -
  from assms(2) have "\<bar>real_of_int \<lfloor>x\<rfloor>\<bar> < 2 ^ 53" by (simp add: assms(1))
  then have "\<bar>\<lfloor>x\<rfloor>\<bar> < 2 ^ 53"
    by (metis of_int_abs of_int_less_numeral_power_cancel_iff)
  from rnd_of_int [OF this] show ?thesis by (simp add: assms(1))
qed

lemma whole_add:
  "of_int \<lfloor>x\<rfloor> = x \<Longrightarrow> of_int \<lfloor>y\<rfloor> = y \<Longrightarrow> of_int \<lfloor>x + y\<rfloor> = x + (y::real)"
  by (metis floor_of_int of_int_add)

lemma whole_diff:
  "of_int \<lfloor>x\<rfloor> = x \<Longrightarrow> of_int \<lfloor>y\<rfloor> = y \<Longrightarrow> of_int \<lfloor>x - y\<rfloor> = x - (y::real)"
  by (metis floor_of_int of_int_diff)

lemma isInteger_valof: "isInteger a \<Longrightarrow> of_int \<lfloor>valof a\<rfloor> = valof a"
  by (cases a) simp_all

lemma isInteger_Num: "isInteger a \<Longrightarrow> a = Num (valof a)"
  by (cases a) simp_all

lemma fadd_whole:
  assumes "of_int \<lfloor>x\<rfloor> = x" and "isInteger a" and "\<bar>x + valof a\<bar> < 2 ^ 53"
  shows "fadd (Num x) a = Num (x + valof a)"
proof -
  from assms(2) have a: "a = Num (valof a)" by (rule isInteger_Num)
  have "rnd (x + valof a) = Num (x + valof a)"
    using whole_add [OF assms(1) isInteger_valof [OF assms(2)]] assms(3) by (rule rnd_whole)
  then show ?thesis by (subst a) simp
qed

lemma fsub_whole:
  assumes "of_int \<lfloor>x\<rfloor> = x" and "isInteger a" and "\<bar>x - valof a\<bar> < 2 ^ 53"
  shows "fsub (Num x) a = Num (x - valof a)"
proof -
  from assms(2) have a: "a = Num (valof a)" by (rule isInteger_Num)
  have "rnd (x - valof a) = Num (x - valof a)"
    using whole_diff [OF assms(1) isInteger_valof [OF assms(2)]] assms(3) by (rule rnd_whole)
  then show ?thesis by (subst a) (simp add: fsub_def)
qed

lemma fsub_self: "fsub (Num x) (Num x) = Num 0"
  by (simp add: fsub_def rnd_def)

lemmas f64_eval = rnd_def expo_def roundHalfEven_def Let_def bitlen_one bitlen_numeral
  power_int_minus

lemma tolerance_value: "rnd 0.01 = Num (5764607523034235 / 576460752303423488)"
  by (simp add: f64_eval split del: if_split)


section \<open>Whole ledgers: the engine does not round\<close>

lemma magnitudes_nonneg: "0 \<le> (\<Sum>t\<leftarrow>ts. \<bar>valof (amount t)\<bar>)"
  by (rule sum_list_nonneg) auto

lemma magnitudes_filter: "(\<Sum>t\<leftarrow>filter P ts. \<bar>valof (amount t)\<bar>) \<le> (\<Sum>t\<leftarrow>ts. \<bar>valof (amount t)\<bar>)"
  by (induction ts) (simp_all add: add_increasing)

lemma foldl_fadd_whole:
  assumes "list_all (\<lambda>t. isInteger (amount t)) ts"
    and "of_int \<lfloor>v\<rfloor> = v"
    and "\<bar>v\<bar> + (\<Sum>t\<leftarrow>ts. \<bar>valof (amount t)\<bar>) < 2 ^ 53"
  shows "foldl (\<lambda>sum txn. fadd sum (amount txn)) (Num v) ts =
           Num (v + (\<Sum>t\<leftarrow>ts. valof (amount t)))"
  using assms
proof (induction ts arbitrary: v)
  case Nil
  show ?case by simp
next
  case (Cons t ts)
  from Cons.prems(1) have int_t: "isInteger (amount t)"
    and int_ts: "list_all (\<lambda>t. isInteger (amount t)) ts" by simp_all
  have rest: "0 \<le> (\<Sum>t\<leftarrow>ts. \<bar>valof (amount t)\<bar>)" by (rule magnitudes_nonneg)
  from Cons.prems(3) rest have small: "\<bar>v + valof (amount t)\<bar> < 2 ^ 53" by simp
  have step: "fadd (Num v) (amount t) = Num (v + valof (amount t))"
    using Cons.prems(2) int_t small by (rule fadd_whole)
  have whole: "of_int \<lfloor>v + valof (amount t)\<rfloor> = v + valof (amount t)"
    using Cons.prems(2) isInteger_valof [OF int_t] by (rule whole_add)
  have bound: "\<bar>v + valof (amount t)\<bar> + (\<Sum>t\<leftarrow>ts. \<bar>valof (amount t)\<bar>) < 2 ^ 53"
    using Cons.prems(3) by simp
  show ?case
    by (simp add: step Cons.IH [OF int_ts whole bound] add.assoc)
qed

lemma sum_whole:
  "list_all (\<lambda>t. isInteger (amount t)) ts \<Longrightarrow>
   of_int \<lfloor>\<Sum>t\<leftarrow>ts. valof (amount t)\<rfloor> = (\<Sum>t\<leftarrow>ts. valof (amount t))"
  by (induction ts) (simp_all add: whole_add isInteger_valof)

lemma sum_magnitude: "\<bar>\<Sum>t\<leftarrow>ts. valof (amount t)\<bar> \<le> (\<Sum>t\<leftarrow>ts. \<bar>valof (amount t)\<bar>)"
  by (induction ts) auto

lemma postTransaction_whole:
  assumes "of_int \<lfloor>v\<rfloor> = v" and "isInteger (amount t)"
  shows "of_int \<lfloor>postTransaction aid ty v (exactTransaction t)\<rfloor> =
           postTransaction aid ty v (exactTransaction t)"
    and "\<bar>postTransaction aid ty v (exactTransaction t)\<bar> \<le> \<bar>v\<bar> + \<bar>valof (amount t)\<bar>"
proof -
  let ?a = "valof (amount t)"
  let ?p = "postTransaction aid ty v (exactTransaction t)"
  have a: "of_int \<lfloor>?a\<rfloor> = ?a" using assms(2) by (rule isInteger_valof)
  have cases: "?p = v \<or> ?p = v + ?a \<or> ?p = v - ?a"
    by (simp add: postTransaction_def exactTransaction_def Let_def)
  from cases show "of_int \<lfloor>?p\<rfloor> = ?p"
    using assms(1) whole_add [OF assms(1) a] whole_diff [OF assms(1) a]
    by (elim disjE) simp_all
  from cases show "\<bar>?p\<bar> \<le> \<bar>v\<bar> + \<bar>?a\<bar>"
    by (elim disjE) simp_all
qed

lemma postTransaction_f64_whole:
  assumes "of_int \<lfloor>v\<rfloor> = v" and "isInteger (amount t)"
    and "\<bar>v\<bar> + \<bar>valof (amount t)\<bar> < 2 ^ 53"
  shows "postTransaction_f64 aid ty (Num v) t =
           Num (postTransaction aid ty v (exactTransaction t))"
proof -
  let ?a = "valof (amount t)"
  have a: "of_int \<lfloor>?a\<rfloor> = ?a" using assms(2) by (rule isInteger_valof)
  have plus: "fadd (Num v) (amount t) = Num (v + ?a)"
    using assms by (intro fadd_whole) simp_all
  have minus: "fsub (Num v) (amount t) = Num (v - ?a)"
    using assms by (intro fsub_whole) simp_all
  have plus_minus: "fsub (Num (v + ?a)) (amount t) = Num v"
    using fsub_whole [OF whole_add [OF assms(1) a] assms(2)] assms(3) by simp
  have minus_plus: "fadd (Num (v - ?a)) (amount t) = Num v"
    using fadd_whole [OF whole_diff [OF assms(1) a] assms(2)] assms(3) by simp
  show ?thesis
    by (simp add: postTransaction_f64_def postTransaction_def exactTransaction_def Let_def
        plus minus plus_minus minus_plus)
qed

lemma balanceLoop_f64_whole:
  assumes "list_all (\<lambda>t. isInteger (amount t)) ts"
    and "of_int \<lfloor>v\<rfloor> = v"
    and "\<bar>v\<bar> + (\<Sum>t\<leftarrow>ts. \<bar>valof (amount t)\<bar>) < 2 ^ 53"
  shows "balanceLoop_f64 aid ty ts (Num v) =
           Num (balanceLoop aid ty (map exactTransaction ts) v)"
  using assms
proof (induction ts arbitrary: v)
  case Nil
  show ?case by simp
next
  case (Cons t ts)
  from Cons.prems(1) have int_t: "isInteger (amount t)"
    and int_ts: "list_all (\<lambda>t. isInteger (amount t)) ts" by simp_all
  have rest: "0 \<le> (\<Sum>t\<leftarrow>ts. \<bar>valof (amount t)\<bar>)" by (rule magnitudes_nonneg)
  from Cons.prems(3) rest have small: "\<bar>v\<bar> + \<bar>valof (amount t)\<bar> < 2 ^ 53" by simp
  let ?v' = "postTransaction aid ty v (exactTransaction t)"
  have step: "postTransaction_f64 aid ty (Num v) t = Num ?v'"
    using Cons.prems(2) int_t small by (rule postTransaction_f64_whole)
  have whole: "of_int \<lfloor>?v'\<rfloor> = ?v'"
    using Cons.prems(2) int_t by (rule postTransaction_whole(1))
  have "\<bar>?v'\<bar> \<le> \<bar>v\<bar> + \<bar>valof (amount t)\<bar>"
    using Cons.prems(2) int_t by (rule postTransaction_whole(2))
  with Cons.prems(3) have bound: "\<bar>?v'\<bar> + (\<Sum>t\<leftarrow>ts. \<bar>valof (amount t)\<bar>) < 2 ^ 53" by simp
  show ?case
    by (simp add: step Cons.IH [OF int_ts whole bound])
qed



lemma wholeLedger_remove:
  assumes "wholeLedger (xs @ t # ys)"
  shows "wholeLedger (xs @ ys)" and "isInteger (amount t)"
    and "(\<Sum>u\<leftarrow>xs @ ys. \<bar>valof (amount u)\<bar>) + \<bar>valof (amount t)\<bar> < 2 ^ 52"
proof -
  from assms have "(\<Sum>u\<leftarrow>xs. \<bar>valof (amount u)\<bar>)
      + (\<bar>valof (amount t)\<bar> + (\<Sum>u\<leftarrow>ys. \<bar>valof (amount u)\<bar>)) < 2 ^ 52"
    by (simp add: wholeLedger_def)
  then have "(\<Sum>u\<leftarrow>xs. \<bar>valof (amount u)\<bar>) + (\<Sum>u\<leftarrow>ys. \<bar>valof (amount u)\<bar>) < 2 ^ 52"
    by linarith
  with assms show "wholeLedger (xs @ ys)"
    by (simp add: wholeLedger_def)
  from assms show "isInteger (amount t)"
    by (simp add: wholeLedger_def)
  from assms show "(\<Sum>u\<leftarrow>xs @ ys. \<bar>valof (amount u)\<bar>) + \<bar>valof (amount t)\<bar> < 2 ^ 52"
    by (simp add: wholeLedger_def)
qed

lemma balanceLoop_whole:
  assumes "list_all (\<lambda>t. isInteger (amount t)) ts" and "of_int \<lfloor>v\<rfloor> = v"
  shows "of_int \<lfloor>balanceLoop aid ty (map exactTransaction ts) v\<rfloor> =
           balanceLoop aid ty (map exactTransaction ts) v
       \<and> \<bar>balanceLoop aid ty (map exactTransaction ts) v\<bar>
           \<le> \<bar>v\<bar> + (\<Sum>t\<leftarrow>ts. \<bar>valof (amount t)\<bar>)"
  using assms
proof (induction ts arbitrary: v)
  case Nil
  then show ?case by simp
next
  case (Cons t ts)
  from Cons.prems(1) have int_t: "isInteger (amount t)"
    and int_ts: "list_all (\<lambda>t. isInteger (amount t)) ts" by simp_all
  let ?v' = "postTransaction aid ty v (exactTransaction t)"
  have whole: "of_int \<lfloor>?v'\<rfloor> = ?v'"
    using Cons.prems(2) int_t by (rule postTransaction_whole(1))
  have le: "\<bar>?v'\<bar> \<le> \<bar>v\<bar> + \<bar>valof (amount t)\<bar>"
    using Cons.prems(2) int_t by (rule postTransaction_whole(2))
  from Cons.IH [OF int_ts whole] le show ?case by simp
qed

lemma calculateAccountBalance_whole:
  assumes "wholeLedger ts"
  shows "calculateAccountBalance_f64 aid ty ts =
           Num (calculateAccountBalance aid ty (map exactTransaction ts))"
    and "of_int \<lfloor>calculateAccountBalance aid ty (map exactTransaction ts)\<rfloor> =
           calculateAccountBalance aid ty (map exactTransaction ts)"
    and "\<bar>calculateAccountBalance aid ty (map exactTransaction ts)\<bar>
           \<le> (\<Sum>t\<leftarrow>ts. \<bar>valof (amount t)\<bar>)"
proof -
  from assms have ints: "list_all (\<lambda>t. isInteger (amount t)) ts"
    and small: "(\<Sum>t\<leftarrow>ts. \<bar>valof (amount t)\<bar>) < 2 ^ 52"
    by (simp_all add: wholeLedger_def)
  have zero: "real_of_int \<lfloor>0::real\<rfloor> = 0" by simp
  from small have "\<bar>0::real\<bar> + (\<Sum>t\<leftarrow>ts. \<bar>valof (amount t)\<bar>) < 2 ^ 53" by simp
  from balanceLoop_f64_whole [OF ints zero this]
  show "calculateAccountBalance_f64 aid ty ts =
           Num (calculateAccountBalance aid ty (map exactTransaction ts))"
    by (simp add: calculateAccountBalance_f64_def calculateAccountBalance_def)
  from balanceLoop_whole [OF ints zero, of aid ty]
  show "of_int \<lfloor>calculateAccountBalance aid ty (map exactTransaction ts)\<rfloor> =
           calculateAccountBalance aid ty (map exactTransaction ts)"
    and "\<bar>calculateAccountBalance aid ty (map exactTransaction ts)\<bar>
           \<le> (\<Sum>t\<leftarrow>ts. \<bar>valof (amount t)\<bar>)"
    by (simp_all add: calculateAccountBalance_def)
qed

lemma balanceLoop_f64_append:
  "balanceLoop_f64 aid ty (xs @ ys) bal = balanceLoop_f64 aid ty ys (balanceLoop_f64 aid ty xs bal)"
  by (induction xs arbitrary: bal) simp_all


lemma calculateAccountBalance_f64_same_account_whole:
  assumes "wholeLedger (xs @ t # ys)" and "debitAccount t = creditAccount t"
  shows "calculateAccountBalance_f64 aid ty (xs @ t # ys) =
           calculateAccountBalance_f64 aid ty (xs @ ys)"
proof -
  have "postTransaction aid ty 0 (exactTransaction t) = 0"
    using assms(2) by (intro postTransaction_same_account) (simp add: exactTransaction_def)
  then have "calculateAccountBalance aid ty (map exactTransaction (xs @ t # ys)) =
      calculateAccountBalance aid ty (map exactTransaction (xs @ ys))"
    by (simp add: calculateAccountBalance_sum)
  then show ?thesis
    by (simp only: calculateAccountBalance_whole(1) [OF assms(1)]
        calculateAccountBalance_whole(1) [OF wholeLedger_remove(1) [OF assms(1)]])
qed


lemma wholeLedger_filter:
  assumes "wholeLedger ts"
  shows "list_all (\<lambda>t. isInteger (amount t)) (filter P ts)"
    and "(\<Sum>t\<leftarrow>filter P ts. \<bar>valof (amount t)\<bar>) < 2 ^ 52"
proof -
  from assms show "list_all (\<lambda>t. isInteger (amount t)) (filter P ts)"
    by (simp add: wholeLedger_def list_all_iff)
  from assms have "(\<Sum>t\<leftarrow>ts. \<bar>valof (amount t)\<bar>) < 2 ^ 52"
    by (simp add: wholeLedger_def)
  with magnitudes_filter [of P ts]
  show "(\<Sum>t\<leftarrow>filter P ts. \<bar>valof (amount t)\<bar>) < 2 ^ 52" by linarith
qed

lemma total_f64_whole:
  assumes "wholeLedger ts"
  shows "foldl (\<lambda>sum txn. fadd sum (amount txn)) (Num 0) (filter P ts) =
           Num (\<Sum>t\<leftarrow>filter P ts. valof (amount t))"
proof -
  have zero: "real_of_int \<lfloor>0::real\<rfloor> = 0" by simp
  from wholeLedger_filter(2) [OF assms, of P]
  have "\<bar>0::real\<bar> + (\<Sum>t\<leftarrow>filter P ts. \<bar>valof (amount t)\<bar>) < 2 ^ 53" by simp
  from foldl_fadd_whole [OF wholeLedger_filter(1) [OF assms] zero this]
  show ?thesis by simp
qed

lemma sum_exact_filter:
  "(\<Sum>t\<leftarrow>filter P (map exactTransaction ts). amount t) =
     (\<Sum>t\<leftarrow>filter (\<lambda>t. P (exactTransaction t)) ts. valof (amount t))"
  by (induction ts) (simp_all add: exactTransaction_def)

lemma calculateVendorBalance_exact:
  "calculateVendorBalance vendorId (map exactTransaction ts) =
     (\<Sum>t\<leftarrow>filter (\<lambda>txn. contact txn = Some vendorId \<and> contactType txn = Some Vendor
                          \<and> type_t txn = TxnExpense) ts. valof (amount t))
   - (\<Sum>t\<leftarrow>filter (\<lambda>txn. contact txn = Some vendorId \<and> contactType txn = Some Vendor
                          \<and> includes_str (toLowerCase (description txn)) ''payment'') ts.
        valof (amount t))"
  unfolding calculateVendorBalance_sum sum_exact_filter
  by (simp add: exactTransaction_def)

lemma calculateVendorBalance_whole:
  assumes "wholeLedger ts"
  shows "calculateVendorBalance_f64 vendorId ts =
           Num (calculateVendorBalance vendorId (map exactTransaction ts))"
    and "of_int \<lfloor>calculateVendorBalance vendorId (map exactTransaction ts)\<rfloor> =
           calculateVendorBalance vendorId (map exactTransaction ts)"
    and "\<bar>calculateVendorBalance vendorId (map exactTransaction ts)\<bar> < 2 ^ 53"
proof -
  let ?PE = "\<lambda>txn. contact txn = Some vendorId \<and> contactType txn = Some Vendor
                          \<and> type_t txn = TxnExpense"
  let ?PP = "\<lambda>txn. contact txn = Some vendorId \<and> contactType txn = Some Vendor
                          \<and> includes_str (toLowerCase (description txn)) ''payment''"
  let ?E = "\<Sum>t\<leftarrow>filter ?PE ts. valof (amount t)"
  let ?P = "\<Sum>t\<leftarrow>filter ?PP ts. valof (amount t)"
  have wE: "of_int \<lfloor>?E\<rfloor> = ?E"
    using wholeLedger_filter(1) [OF assms] by (rule sum_whole)
  have wP: "of_int \<lfloor>?P\<rfloor> = ?P"
    using wholeLedger_filter(1) [OF assms] by (rule sum_whole)
  have bE: "\<bar>?E\<bar> < 2 ^ 52"
    using sum_magnitude [of "filter ?PE ts"] wholeLedger_filter(2) [OF assms, of ?PE]
    by linarith
  have bP: "\<bar>?P\<bar> < 2 ^ 52"
    using sum_magnitude [of "filter ?PP ts"] wholeLedger_filter(2) [OF assms, of ?PP]
    by linarith
  have first: "rnd ?E = Num ?E"
    using wE bE by (intro rnd_whole) simp_all
  from bE bP have "\<bar>?E - ?P\<bar> < 2 ^ 53" by simp
  with whole_diff [OF wE wP] have second: "fsub (Num ?E) (Num ?P) = Num (?E - ?P)"
    by (simp add: fsub_def rnd_whole)
  show "calculateVendorBalance_f64 vendorId ts =
           Num (calculateVendorBalance vendorId (map exactTransaction ts))"
    unfolding calculateVendorBalance_exact
    by (simp add: calculateVendorBalance_f64_def Let_def total_f64_whole [OF assms] first second)
  show "of_int \<lfloor>calculateVendorBalance vendorId (map exactTransaction ts)\<rfloor> =
           calculateVendorBalance vendorId (map exactTransaction ts)"
    unfolding calculateVendorBalance_exact using wE wP by (rule whole_diff)
  show "\<bar>calculateVendorBalance vendorId (map exactTransaction ts)\<bar> < 2 ^ 53"
    unfolding calculateVendorBalance_exact using bE bP by simp
qed

lemma tolerance_positive: "flt (Num 0) (rnd 0.01)"
  by (simp add: f64_eval split del: if_split)

lemma validateTransactionBalance_f64_total:
  "validateTransactionBalance_f64 ts =
     (let total = foldl (\<lambda>sum txn. fadd sum (amount txn)) (Num 0) ts
      in \<lparr>isValid = isFinite total, totalDebits = total, totalCredits = total,
          difference_v = (if isFinite total then Num 0 else NaN)\<rparr>)"
proof (cases "foldl (\<lambda>sum txn. fadd sum (amount txn)) (Num 0) ts")
  case (Num x)
  then show ?thesis
    using tolerance_positive
    by (simp add: validateTransactionBalance_f64_def Let_def fsub_self)
qed (simp_all add: validateTransactionBalance_f64_def Let_def fsub_def)


lemma rnd_power2:
  assumes "n \<le> 1023"
  shows "rnd (2 ^ n) = Num (2 ^ n)"
proof -
  have "\<bar>(2::real) ^ n\<bar> = of_int (2 ^ n)" by simp
  then have fl: "\<lfloor>\<bar>(2::real) ^ n\<bar>\<rfloor> = 2 ^ n"
    by (simp only: floor_of_int)
  have "bitlen (1 * 2 ^ n) = bitlen 1 + int n" by (rule bitlen_pow2) simp
  then have ex: "expo (2 ^ n) = int n"
    by (simp add: expo_def fl bitlen_one)
  have e: "max (expo (2 ^ n) - 52) (- 1074) = int n - 52" by (simp add: ex)
  have scale: "(2::real) ^ n / 2 powi (int n - 52) = of_int (2 ^ 52)"
    by (simp add: power_int_diff)
  have unscale: "real_of_int (2 ^ 52) * 2 powi (int n - 52) = 2 ^ n"
    by (simp add: power_int_diff)
  have small: "\<not> 2 ^ 1024 - 2 ^ 970 \<le> \<bar>(2::real) ^ n\<bar>"
  proof -
    have "(2::real) ^ n \<le> 2 ^ 1023" using assms by (intro power_increasing) simp_all
    also have "(2::real) ^ 1023 < 2 ^ 970 * (2 ^ 54 - 1)" by (simp flip: power_add)
    also have "\<dots> = 2 ^ 1024 - 2 ^ 970" by (simp add: algebra_simps flip: power_add)
    finally show ?thesis by simp
  qed
  show ?thesis
    using small
    by (simp only: rnd_def Let_def e scale roundHalfEven_of_int unscale) simp
qed



lemma amount_mkTxn: "amount (mkTxn i d a ty db cr w k) = a"
  by (simp add: mkTxn_def)

section \<open>The claims\<close>



text \<open>
  C2 (as stated). For every list of transactions, \<open>validateTransactionBalance\<close> returns
  \<open>difference\<close> 0 and \<open>isValid\<close> true. This fails when the total of the amounts is
  not finite: two amounts of \<open>2\<^sup>1\<^sup>0\<^sup>2\<^sup>3\<close>, each a double, add up to \<^verbatim>\<open>Infinity\<close>, the
  difference \<^verbatim>\<open>Infinity - Infinity\<close> is \<^verbatim>\<open>NaN\<close>, and \<^verbatim>\<open>NaN < 0.01\<close> is false.
\<close>

theorem validateTransactionBalance_overflow_counterexample:
  "validateTransactionBalance_f64
     [mkTxn ''t1'' ''Bond issue'' (Num (2 ^ 1023)) TxnIncome ''cash'' ''revenue'' None None,
      mkTxn ''t2'' ''Bond issue'' (Num (2 ^ 1023)) TxnIncome ''cash'' ''revenue'' None None]
   = \<lparr>isValid = False, totalDebits = PosInf, totalCredits = PosInf, difference_v = NaN\<rparr>
   \<and> rnd (2 ^ 1023) = Num (2 ^ 1023)"
proof -
  have double: "rnd (2 ^ 1023) = Num (2 ^ 1023)"
    by (rule rnd_power2) simp
  have sum: "rnd (2 ^ 1023 + 2 ^ 1023) = PosInf"
    by (simp add: rnd_def)
  have "foldl (\<lambda>sum txn. fadd sum (amount txn)) (Num 0)
     [mkTxn ''t1'' ''Bond issue'' (Num (2 ^ 1023)) TxnIncome ''cash'' ''revenue'' None None,
      mkTxn ''t2'' ''Bond issue'' (Num (2 ^ 1023)) TxnIncome ''cash'' ''revenue'' None None]
    = PosInf"
    by (simp only: foldl.simps amount_mkTxn fadd.simps(1) add_0 double sum)
  then have "validateTransactionBalance_f64
     [mkTxn ''t1'' ''Bond issue'' (Num (2 ^ 1023)) TxnIncome ''cash'' ''revenue'' None None,
      mkTxn ''t2'' ''Bond issue'' (Num (2 ^ 1023)) TxnIncome ''cash'' ''revenue'' None None]
   = \<lparr>isValid = False, totalDebits = PosInf, totalCredits = PosInf, difference_v = NaN\<rparr>"
    by (simp only: validateTransactionBalance_f64_total Let_def isFinite.simps if_False)
  with double show ?thesis by (intro conjI)
qed

text \<open>
  C2 (amended). Both totals are the left-to-right double sum of the amounts. For every
  list of transactions whose total is finite, \<open>validateTransactionBalance\<close> returns
  \<open>totalDebits\<close> equal to \<open>totalCredits\<close>, \<open>difference\<close> 0 and \<open>isValid\<close> true;
  when the total is an infinity or \<^verbatim>\<open>NaN\<close>, \<open>difference\<close> is \<^verbatim>\<open>NaN\<close> and
  \<open>isValid\<close> is false. On the empty list the result is
  \<open>{isValid: true, totalDebits: 0, totalCredits: 0, difference: 0}\<close>.
\<close>

theorem validateTransactionBalance_f64_spec:
  "totalDebits (validateTransactionBalance_f64 transactions) =
     foldl (\<lambda>sum txn. fadd sum (amount txn)) (Num 0) transactions
   \<and> totalCredits (validateTransactionBalance_f64 transactions) =
     totalDebits (validateTransactionBalance_f64 transactions)
   \<and> (isFinite (totalDebits (validateTransactionBalance_f64 transactions)) \<longrightarrow>
        difference_v (validateTransactionBalance_f64 transactions) = Num 0
        \<and> isValid (validateTransactionBalance_f64 transactions))
   \<and> (\<not> isFinite (totalDebits (validateTransactionBalance_f64 transactions)) \<longrightarrow>
        difference_v (validateTransactionBalance_f64 transactions) = NaN
        \<and> \<not> isValid (validateTransactionBalance_f64 transactions))
   \<and> validateTransactionBalance_f64 [] =
        \<lparr>isValid = True, totalDebits = Num 0, totalCredits = Num 0, difference_v = Num 0\<rparr>"
  by (simp add: validateTransactionBalance_f64_total Let_def)

theorem validateTransactionBalance_f64_spec_witness:
  "validateTransactionBalance_f64
     [mkTxn ''t1'' ''Cash sale'' (Num 500) TxnIncome ''cash'' ''revenue'' None None,
      mkTxn ''t2'' ''Office rent'' (Num 200) TxnExpense ''rent'' ''cash''
        (Some ''v1'') (Some Vendor)]
   = \<lparr>isValid = True, totalDebits = Num 700, totalCredits = Num 700, difference_v = Num 0\<rparr>
   \<and> \<not> isValid (validateTransactionBalance_f64
     [mkTxn ''t1'' ''Bond issue'' (Num (2 ^ 1023)) TxnIncome ''cash'' ''revenue'' None None,
      mkTxn ''t2'' ''Bond issue'' (Num (2 ^ 1023)) TxnIncome ''cash'' ''revenue'' None None])"
proof -
  let ?ok = "[mkTxn ''t1'' ''Cash sale'' (Num 500) TxnIncome ''cash'' ''revenue'' None None,
      mkTxn ''t2'' ''Office rent'' (Num 200) TxnExpense ''rent'' ''cash''
        (Some ''v1'') (Some Vendor)]"
  let ?big = "[mkTxn ''t1'' ''Bond issue'' (Num (2 ^ 1023)) TxnIncome ''cash'' ''revenue'' None None,
      mkTxn ''t2'' ''Bond issue'' (Num (2 ^ 1023)) TxnIncome ''cash'' ''revenue'' None None]"
  have r500: "rnd 500 = Num 500" and r700: "rnd 700 = Num 700"
    by (simp_all add: rnd_whole)
  have total: "foldl (\<lambda>sum txn. fadd sum (amount txn)) (Num 0) ?ok = Num 700"
    by (simp add: mkTxn_def r500 r700)
  have fields: "totalDebits (validateTransactionBalance_f64 ?ok) = Num 700
      \<and> totalCredits (validateTransactionBalance_f64 ?ok) = Num 700
      \<and> difference_v (validateTransactionBalance_f64 ?ok) = Num 0
      \<and> isValid (validateTransactionBalance_f64 ?ok)"
    using validateTransactionBalance_f64_spec [of ?ok] total by simp
  have eq: "r = \<lparr>isValid = isValid r, totalDebits = totalDebits r,
      totalCredits = totalCredits r, difference_v = difference_v r\<rparr>" for r :: ValidationResult
    by simp
  have ok: "validateTransactionBalance_f64 ?ok =
      \<lparr>isValid = True, totalDebits = Num 700, totalCredits = Num 700, difference_v = Num 0\<rparr>"
    using fields eq [of "validateTransactionBalance_f64 ?ok"] by simp
  have double: "rnd (2 ^ 1023) = Num (2 ^ 1023)"
    by (rule rnd_power2) simp
  have sum: "rnd (2 ^ 1023 + 2 ^ 1023) = PosInf"
    by (simp add: rnd_def)
  have inf: "foldl (\<lambda>sum txn. fadd sum (amount txn)) (Num 0) ?big = PosInf"
    by (simp only: foldl.simps amount_mkTxn fadd.simps(1) add_0 double sum)
  have big: "\<not> isValid (validateTransactionBalance_f64 ?big)"
    using validateTransactionBalance_f64_spec [of ?big] inf by simp
  from ok big show ?thesis by (intro conjI)
qed








text \<open>
  C6 (as stated). Appending a transaction whose debit account is its credit account
  leaves the computed balance unchanged. This fails in double arithmetic: with a balance
  of \<^verbatim>\<open>0.1\<close>, a transaction of \<^verbatim>\<open>0.2\<close> from \<open>cash\<close> to \<open>cash\<close> gives
  \<^verbatim>\<open>(0.1 + 0.2) - 0.2\<close>, which is \<^verbatim>\<open>0.10000000000000003\<close>.
\<close>

theorem same_account_rounding_counterexample:
  "debitAccount (mkTxn ''t3'' ''Till float'' (rnd 0.2) TxnTransfer ''cash'' ''cash'' None None) =
   creditAccount (mkTxn ''t3'' ''Till float'' (rnd 0.2) TxnTransfer ''cash'' ''cash'' None None)
   \<and> calculateAccountBalance_f64 ''cash'' Asset
        [mkTxn ''t1'' ''Cash sale'' (rnd 0.1) TxnIncome ''cash'' ''revenue'' None None]
      = rnd 0.1
   \<and> calculateAccountBalance_f64 ''cash'' Asset
        ([mkTxn ''t1'' ''Cash sale'' (rnd 0.1) TxnIncome ''cash'' ''revenue'' None None]
         @ [mkTxn ''t3'' ''Till float'' (rnd 0.2) TxnTransfer ''cash'' ''cash'' None None])
      = rnd 0.10000000000000003
   \<and> rnd 0.10000000000000003 \<noteq> rnd 0.1"
proof -
  have same: "debitAccount (mkTxn ''t3'' ''Till float'' (rnd 0.2) TxnTransfer ''cash'' ''cash'' None None) =
   creditAccount (mkTxn ''t3'' ''Till float'' (rnd 0.2) TxnTransfer ''cash'' ''cash'' None None)"
    by (simp add: mkTxn_def)
  have first: "fadd (Num 0) (rnd 0.1) = rnd 0.1"
    by (simp add: f64_eval split del: if_split)
  have second: "fsub (fadd (rnd 0.1) (rnd 0.2)) (rnd 0.2) = rnd 0.10000000000000003"
    by (simp add: fsub_def f64_eval split del: if_split)
  have differ: "rnd 0.10000000000000003 \<noteq> rnd 0.1"
    by (simp add: f64_eval split del: if_split)
  have before: "calculateAccountBalance_f64 ''cash'' Asset
        [mkTxn ''t1'' ''Cash sale'' (rnd 0.1) TxnIncome ''cash'' ''revenue'' None None]
      = fadd (Num 0) (rnd 0.1)"
    by (simp add: calculateAccountBalance_f64_def postTransaction_f64_def isDebitNormal_def
        mkTxn_def del: fadd.simps)
  have after: "calculateAccountBalance_f64 ''cash'' Asset
        ([mkTxn ''t1'' ''Cash sale'' (rnd 0.1) TxnIncome ''cash'' ''revenue'' None None]
         @ [mkTxn ''t3'' ''Till float'' (rnd 0.2) TxnTransfer ''cash'' ''cash'' None None])
      = fsub (fadd (fadd (Num 0) (rnd 0.1)) (rnd 0.2)) (rnd 0.2)"
    by (simp add: calculateAccountBalance_f64_def postTransaction_f64_def isDebitNormal_def
        mkTxn_def del: fadd.simps)
  from before have before': "calculateAccountBalance_f64 ''cash'' Asset
        [mkTxn ''t1'' ''Cash sale'' (rnd 0.1) TxnIncome ''cash'' ''revenue'' None None]
      = rnd 0.1"
    by (simp only: first)
  from after have after': "calculateAccountBalance_f64 ''cash'' Asset
        ([mkTxn ''t1'' ''Cash sale'' (rnd 0.1) TxnIncome ''cash'' ''revenue'' None None]
         @ [mkTxn ''t3'' ''Till float'' (rnd 0.2) TxnTransfer ''cash'' ''cash'' None None])
      = rnd 0.10000000000000003"
    by (simp only: first second)
  from same before' after' differ show ?thesis by (intro conjI)
qed


text \<open>
  C6 (amended). For every account type and account id, take a transaction whose debit
  account is its credit account. For any other account, appending it leaves the computed
  balance unchanged. For that account, appending it turns the balance \<open>b\<close> into
  \<open>(b + amount) - amount\<close> for an asset or expense account and into
  \<open>(b - amount) + amount\<close> otherwise, each operation rounded. On a ledger of whole
  amounts nothing is rounded: appending the transaction, or inserting it anywhere, leaves
  the computed balance unchanged.
\<close>

theorem calculateAccountBalance_f64_same_account:
  assumes "debitAccount t = creditAccount t"
  shows "(debitAccount t \<noteq> accountId \<longrightarrow>
            calculateAccountBalance_f64 accountId accountType (xs @ [t]) =
              calculateAccountBalance_f64 accountId accountType xs)
       \<and> (debitAccount t = accountId \<longrightarrow>
            calculateAccountBalance_f64 accountId accountType (xs @ [t]) =
              (if isDebitNormal accountType
               then fsub (fadd (calculateAccountBalance_f64 accountId accountType xs) (amount t))
                      (amount t)
               else fadd (fsub (calculateAccountBalance_f64 accountId accountType xs) (amount t))
                      (amount t)))
       \<and> (wholeLedger (xs @ [t]) \<longrightarrow>
            calculateAccountBalance_f64 accountId accountType (xs @ [t]) =
              calculateAccountBalance_f64 accountId accountType xs)
       \<and> (wholeLedger (xs @ t # ys) \<longrightarrow>
            calculateAccountBalance_f64 accountId accountType (xs @ t # ys) =
              calculateAccountBalance_f64 accountId accountType (xs @ ys))"
proof (intro conjI impI)
  assume "debitAccount t \<noteq> accountId"
  with assms show "calculateAccountBalance_f64 accountId accountType (xs @ [t]) =
      calculateAccountBalance_f64 accountId accountType xs"
    by (simp add: calculateAccountBalance_f64_def balanceLoop_f64_append postTransaction_f64_def)
next
  assume "debitAccount t = accountId"
  with assms show "calculateAccountBalance_f64 accountId accountType (xs @ [t]) =
      (if isDebitNormal accountType
       then fsub (fadd (calculateAccountBalance_f64 accountId accountType xs) (amount t))
              (amount t)
       else fadd (fsub (calculateAccountBalance_f64 accountId accountType xs) (amount t))
              (amount t))"
    by (simp add: calculateAccountBalance_f64_def balanceLoop_f64_append postTransaction_f64_def)
next
  assume "wholeLedger (xs @ [t])"
  from calculateAccountBalance_f64_same_account_whole [OF this assms]
  show "calculateAccountBalance_f64 accountId accountType (xs @ [t]) =
      calculateAccountBalance_f64 accountId accountType xs"
    by simp
next
  assume "wholeLedger (xs @ t # ys)"
  then show "calculateAccountBalance_f64 accountId accountType (xs @ t # ys) =
      calculateAccountBalance_f64 accountId accountType (xs @ ys)"
    using assms by (rule calculateAccountBalance_f64_same_account_whole)
qed

theorem calculateAccountBalance_f64_same_account_witness:
  "calculateAccountBalance_f64 ''cash'' Asset
     ([mkTxn ''t1'' ''Cash sale'' (Num 500) TxnIncome ''cash'' ''revenue'' None None]
      @ [mkTxn ''t3'' ''Till float'' (Num 75) TxnTransfer ''cash'' ''cash'' None None])
   = Num 500
   \<and> calculateAccountBalance_f64 ''revenue'' Revenue
     ([mkTxn ''t1'' ''Cash sale'' (Num 500) TxnIncome ''cash'' ''revenue'' None None]
      @ [mkTxn ''t3'' ''Till float'' (Num 75) TxnTransfer ''cash'' ''cash'' None None])
   = Num 500"
proof -
  let ?xs = "[mkTxn ''t1'' ''Cash sale'' (Num 500) TxnIncome ''cash'' ''revenue'' None None]"
  let ?t = "mkTxn ''t3'' ''Till float'' (Num 75) TxnTransfer ''cash'' ''cash'' None None"
  have same: "debitAccount ?t = creditAccount ?t"
    by (simp add: mkTxn_def)
  have whole: "wholeLedger (?xs @ [?t])"
    by (simp add: wholeLedger_def mkTxn_def)
  have other: "debitAccount ?t \<noteq> ''revenue''"
    by (simp add: mkTxn_def)
  have r500: "rnd 500 = Num 500"
    by (simp add: rnd_whole)
  have cash: "calculateAccountBalance_f64 ''cash'' Asset ?xs = Num 500"
    by (simp add: calculateAccountBalance_f64_def postTransaction_f64_def isDebitNormal_def
        mkTxn_def r500)
  have revenue: "calculateAccountBalance_f64 ''revenue'' Revenue ?xs = Num 500"
    by (simp add: calculateAccountBalance_f64_def postTransaction_f64_def isDebitNormal_def
        mkTxn_def r500)
  have r1: "calculateAccountBalance_f64 ''cash'' Asset (?xs @ [?t]) = Num 500"
    using calculateAccountBalance_f64_same_account [OF same, of "''cash''" Asset ?xs "[]"]
      whole cash by simp
  have r2: "calculateAccountBalance_f64 ''revenue'' Revenue (?xs @ [?t]) = Num 500"
    using calculateAccountBalance_f64_same_account [OF same, of "''revenue''" Revenue ?xs "[]"]
      other revenue by simp
  from r1 r2 show ?thesis by (intro conjI)
qed



text \<open>
  C8 (as stated). A payment-described vendor transaction of type \<open>income\<close> lowers the
  vendor balance by its amount, and one of type \<open>expense\<close> contributes net zero. Both
  fail in double arithmetic, because the expense total and the payment total are rounded
  separately. After an expense of \<^verbatim>\<open>0.1\<close>, an expense of \<^verbatim>\<open>0.2\<close> described as a
  payment gives \<^verbatim>\<open>(0.1 + 0.2) - 0.2\<close>, which is \<^verbatim>\<open>0.10000000000000003\<close> and not
  \<^verbatim>\<open>0.1\<close>. After an expense of \<^verbatim>\<open>0.4\<close> and a payment of \<^verbatim>\<open>0.1\<close>, with balance
  \<^verbatim>\<open>0.30000000000000004\<close>, an income payment of \<^verbatim>\<open>0.1\<close> gives
  \<^verbatim>\<open>0.4 - (0.1 + 0.1)\<close>, which is \<^verbatim>\<open>0.2\<close> and not
  \<^verbatim>\<open>0.30000000000000004 - 0.1\<close>, which is \<^verbatim>\<open>0.20000000000000004\<close>.
\<close>

theorem vendor_payment_rounding_counterexample:
  "calculateVendorBalance_f64 ''v1''
     [mkTxn ''t1'' ''Office rent'' (rnd 0.1) TxnExpense ''rent'' ''payable''
        (Some ''v1'') (Some Vendor)]
     = rnd 0.1
   \<and> calculateVendorBalance_f64 ''v1''
     ([mkTxn ''t1'' ''Office rent'' (rnd 0.1) TxnExpense ''rent'' ''payable''
         (Some ''v1'') (Some Vendor)]
      @ mkTxn ''t2'' ''payment for paper'' (rnd 0.2) TxnExpense ''supplies'' ''cash''
          (Some ''v1'') (Some Vendor) # [])
     = rnd 0.10000000000000003
   \<and> rnd 0.10000000000000003 \<noteq> rnd 0.1
   \<and> calculateVendorBalance_f64 ''v1''
     [mkTxn ''t3'' ''Office rent'' (rnd 0.4) TxnExpense ''rent'' ''payable''
        (Some ''v1'') (Some Vendor),
      mkTxn ''t4'' ''Rent payment'' (rnd 0.1) TxnTransfer ''payable'' ''cash''
        (Some ''v1'') (Some Vendor)]
     = rnd 0.30000000000000004
   \<and> calculateVendorBalance_f64 ''v1''
     ([mkTxn ''t3'' ''Office rent'' (rnd 0.4) TxnExpense ''rent'' ''payable''
         (Some ''v1'') (Some Vendor),
       mkTxn ''t4'' ''Rent payment'' (rnd 0.1) TxnTransfer ''payable'' ''cash''
         (Some ''v1'') (Some Vendor)]
      @ mkTxn ''t5'' ''Refund Payment'' (rnd 0.1) TxnIncome ''cash'' ''payable''
          (Some ''v1'') (Some Vendor) # [])
     = rnd 0.2
   \<and> fsub (rnd 0.30000000000000004) (rnd 0.1) = rnd 0.20000000000000004
   \<and> rnd 0.2 \<noteq> rnd 0.20000000000000004"
proof -
  have words:
    "\<not> includes_str (toLowerCase ''Office rent'') ''payment''"
    "includes_str (toLowerCase ''payment for paper'') ''payment''"
    "includes_str (toLowerCase ''Rent payment'') ''payment''"
    "includes_str (toLowerCase ''Refund Payment'') ''payment''"
    by (simp_all add: toLowerCase_def toLowerChar_def)
  have e1: "fsub (fadd (Num 0) (fadd (Num 0) (rnd 0.1))) (Num 0) = rnd 0.1"
    by (simp add: fsub_def f64_eval split del: if_split)
  have e2: "fsub (fadd (Num 0) (fadd (fadd (Num 0) (rnd 0.1)) (rnd 0.2)))
              (fadd (Num 0) (rnd 0.2)) = rnd 0.10000000000000003"
    by (simp add: fsub_def f64_eval split del: if_split)
  have e3: "rnd 0.10000000000000003 \<noteq> rnd 0.1"
    by (simp add: f64_eval split del: if_split)
  have e4: "fsub (fadd (Num 0) (fadd (Num 0) (rnd 0.4))) (fadd (Num 0) (rnd 0.1))
              = rnd 0.30000000000000004"
    by (simp add: fsub_def f64_eval split del: if_split)
  have e5: "fsub (fadd (Num 0) (fadd (Num 0) (rnd 0.4)))
              (fadd (fadd (Num 0) (rnd 0.1)) (rnd 0.1)) = rnd 0.2"
    by (simp add: fsub_def f64_eval split del: if_split)
  have e6: "fsub (rnd 0.30000000000000004) (rnd 0.1) = rnd 0.20000000000000004"
    by (simp add: fsub_def f64_eval split del: if_split)
  have e7: "rnd 0.2 \<noteq> rnd 0.20000000000000004"
    by (simp add: f64_eval split del: if_split)
  have v1: "calculateVendorBalance_f64 ''v1''
     [mkTxn ''t1'' ''Office rent'' (rnd 0.1) TxnExpense ''rent'' ''payable''
        (Some ''v1'') (Some Vendor)]
     = fsub (fadd (Num 0) (fadd (Num 0) (rnd 0.1))) (Num 0)"
    using words
    by (simp add: calculateVendorBalance_f64_def mkTxn_def del: fadd.simps includes_str.simps)
  have v2: "calculateVendorBalance_f64 ''v1''
     ([mkTxn ''t1'' ''Office rent'' (rnd 0.1) TxnExpense ''rent'' ''payable''
         (Some ''v1'') (Some Vendor)]
      @ mkTxn ''t2'' ''payment for paper'' (rnd 0.2) TxnExpense ''supplies'' ''cash''
          (Some ''v1'') (Some Vendor) # [])
     = fsub (fadd (Num 0) (fadd (fadd (Num 0) (rnd 0.1)) (rnd 0.2)))
              (fadd (Num 0) (rnd 0.2))"
    using words
    by (simp add: calculateVendorBalance_f64_def mkTxn_def del: fadd.simps includes_str.simps)
  have v3: "calculateVendorBalance_f64 ''v1''
     [mkTxn ''t3'' ''Office rent'' (rnd 0.4) TxnExpense ''rent'' ''payable''
        (Some ''v1'') (Some Vendor),
      mkTxn ''t4'' ''Rent payment'' (rnd 0.1) TxnTransfer ''payable'' ''cash''
        (Some ''v1'') (Some Vendor)]
     = fsub (fadd (Num 0) (fadd (Num 0) (rnd 0.4))) (fadd (Num 0) (rnd 0.1))"
    using words
    by (simp add: calculateVendorBalance_f64_def mkTxn_def del: fadd.simps includes_str.simps)
  have v4: "calculateVendorBalance_f64 ''v1''
     ([mkTxn ''t3'' ''Office rent'' (rnd 0.4) TxnExpense ''rent'' ''payable''
         (Some ''v1'') (Some Vendor),
       mkTxn ''t4'' ''Rent payment'' (rnd 0.1) TxnTransfer ''payable'' ''cash''
         (Some ''v1'') (Some Vendor)]
      @ mkTxn ''t5'' ''Refund Payment'' (rnd 0.1) TxnIncome ''cash'' ''payable''
          (Some ''v1'') (Some Vendor) # [])
     = fsub (fadd (Num 0) (fadd (Num 0) (rnd 0.4)))
              (fadd (fadd (Num 0) (rnd 0.1)) (rnd 0.1))"
    using words
    by (simp add: calculateVendorBalance_f64_def mkTxn_def del: fadd.simps includes_str.simps)
  from v1 v2 v3 v4 e3 e6 e7 show ?thesis
    unfolding e1 e2 e4 e5 by (intro conjI)
qed


text \<open>
  C8 (amended). In \<open>calculateVendorBalance\<close> the payment total does not look at the
  type field. For a transaction \<open>t\<close> whose contact is the vendor, whose contact type is
  \<open>vendor\<close> and whose description contains \<open>payment\<close> in any case, appended to a
  list with expense total \<open>E\<close> and payment total \<open>P\<close>: the balance becomes
  \<open>E - (P + amount)\<close> when the type of \<open>t\<close> is not \<open>expense\<close>, and
  \<open>(E + amount) - (P + amount)\<close> when it is, each operation rounded. On a ledger of whole
  amounts nothing is rounded: wherever \<open>t\<close> stands in the list, a \<open>t\<close> of type
  \<open>income\<close> (or \<open>transfer\<close>) lowers the vendor balance by its amount and a \<open>t\<close> of
  type \<open>expense\<close> leaves it unchanged.
\<close>

theorem calculateVendorBalance_f64_payment_any_type:
  assumes "contact t = Some vendorId"
    and "contactType t = Some Vendor"
    and "includes_str (toLowerCase (description t)) ''payment''"
  shows "calculateVendorBalance_f64 vendorId (xs @ [t]) =
           fsub (fadd (Num 0)
                   (if type_t t = TxnExpense
                    then fadd (foldl (\<lambda>sum txn. fadd sum (amount txn)) (Num 0)
                                 (filter (\<lambda>txn. contact txn = Some vendorId
                                            \<and> contactType txn = Some Vendor
                                            \<and> type_t txn = TxnExpense) xs))
                           (amount t)
                    else foldl (\<lambda>sum txn. fadd sum (amount txn)) (Num 0)
                           (filter (\<lambda>txn. contact txn = Some vendorId
                                      \<and> contactType txn = Some Vendor
                                      \<and> type_t txn = TxnExpense) xs)))
             (fadd (foldl (\<lambda>sum txn. fadd sum (amount txn)) (Num 0)
                      (filter (\<lambda>txn. contact txn = Some vendorId
                                 \<and> contactType txn = Some Vendor
                                 \<and> includes_str (toLowerCase (description txn)) ''payment'') xs))
                (amount t))
       \<and> (wholeLedger (xs @ t # ys) \<and> type_t t = TxnIncome \<longrightarrow>
            calculateVendorBalance_f64 vendorId (xs @ t # ys) =
              fsub (calculateVendorBalance_f64 vendorId (xs @ ys)) (amount t))
       \<and> (wholeLedger (xs @ t # ys) \<and> type_t t = TxnTransfer \<longrightarrow>
            calculateVendorBalance_f64 vendorId (xs @ t # ys) =
              fsub (calculateVendorBalance_f64 vendorId (xs @ ys)) (amount t))
       \<and> (wholeLedger (xs @ t # ys) \<and> type_t t = TxnExpense \<longrightarrow>
            calculateVendorBalance_f64 vendorId (xs @ t # ys) =
              calculateVendorBalance_f64 vendorId (xs @ ys))"
proof -
  let ?V = "\<lambda>ts. calculateVendorBalance vendorId (map exactTransaction ts)"
  have appended: "calculateVendorBalance_f64 vendorId (xs @ [t]) =
           fsub (fadd (Num 0)
                   (if type_t t = TxnExpense
                    then fadd (foldl (\<lambda>sum txn. fadd sum (amount txn)) (Num 0)
                                 (filter (\<lambda>txn. contact txn = Some vendorId
                                            \<and> contactType txn = Some Vendor
                                            \<and> type_t txn = TxnExpense) xs))
                           (amount t)
                    else foldl (\<lambda>sum txn. fadd sum (amount txn)) (Num 0)
                           (filter (\<lambda>txn. contact txn = Some vendorId
                                      \<and> contactType txn = Some Vendor
                                      \<and> type_t txn = TxnExpense) xs)))
             (fadd (foldl (\<lambda>sum txn. fadd sum (amount txn)) (Num 0)
                      (filter (\<lambda>txn. contact txn = Some vendorId
                                 \<and> contactType txn = Some Vendor
                                 \<and> includes_str (toLowerCase (description txn)) ''payment'') xs))
                (amount t))"
    using assms by (simp add: calculateVendorBalance_f64_def Let_def)
  have lowered: "calculateVendorBalance_f64 vendorId (xs @ t # ys) =
      fsub (calculateVendorBalance_f64 vendorId (xs @ ys)) (amount t)"
    if whole: "wholeLedger (xs @ t # ys)" and ty: "type_t t \<noteq> TxnExpense"
  proof -
    note rest = wholeLedger_remove(1) [OF whole]
    have exact: "?V (xs @ t # ys) = ?V (xs @ ys) - valof (amount t)"
      unfolding calculateVendorBalance_exact using assms ty by simp
    have "\<bar>?V (xs @ ys) - valof (amount t)\<bar> < 2 ^ 53"
      using calculateVendorBalance_whole(3) [OF whole, of vendorId] by (simp only: exact)
    with calculateVendorBalance_whole(2) [OF rest] wholeLedger_remove(2) [OF whole]
    have "fsub (Num (?V (xs @ ys))) (amount t) = Num (?V (xs @ ys) - valof (amount t))"
      by (rule fsub_whole)
    then show ?thesis
      by (simp only: calculateVendorBalance_whole(1) [OF whole]
          calculateVendorBalance_whole(1) [OF rest] exact)
  qed
  have unchanged: "calculateVendorBalance_f64 vendorId (xs @ t # ys) =
      calculateVendorBalance_f64 vendorId (xs @ ys)"
    if whole: "wholeLedger (xs @ t # ys)" and ty: "type_t t = TxnExpense"
  proof -
    have "?V (xs @ t # ys) = ?V (xs @ ys)"
      unfolding calculateVendorBalance_exact using assms ty by simp
    then show ?thesis
      by (simp only: calculateVendorBalance_whole(1) [OF whole]
          calculateVendorBalance_whole(1) [OF wholeLedger_remove(1) [OF whole]])
  qed
  from appended lowered unchanged show ?thesis by simp
qed

theorem calculateVendorBalance_f64_payment_any_type_witness:
  "calculateVendorBalance_f64 ''v1''
     ([mkTxn ''t2'' ''Office rent'' (Num 200) TxnExpense ''rent'' ''payable''
         (Some ''v1'') (Some Vendor)]
      @ mkTxn ''t8'' ''Refund Payment'' (Num 30) TxnIncome ''cash'' ''payable''
          (Some ''v1'') (Some Vendor) # []) = Num 170
   \<and> calculateVendorBalance_f64 ''v1''
     ([mkTxn ''t2'' ''Office rent'' (Num 200) TxnExpense ''rent'' ''payable''
         (Some ''v1'') (Some Vendor)]
      @ mkTxn ''t9'' ''payment for paper'' (Num 45) TxnExpense ''supplies'' ''cash''
          (Some ''v1'') (Some Vendor) # []) = Num 200"
proof -
  let ?xs = "[mkTxn ''t2'' ''Office rent'' (Num 200) TxnExpense ''rent'' ''payable''
         (Some ''v1'') (Some Vendor)]"
  let ?inc = "mkTxn ''t8'' ''Refund Payment'' (Num 30) TxnIncome ''cash'' ''payable''
          (Some ''v1'') (Some Vendor)"
  let ?exp = "mkTxn ''t9'' ''payment for paper'' (Num 45) TxnExpense ''supplies'' ''cash''
          (Some ''v1'') (Some Vendor)"
  have r: "rnd 200 = Num 200" "rnd 170 = Num 170"
    by (simp_all add: rnd_whole)
  have base: "calculateVendorBalance_f64 ''v1'' (?xs @ []) = Num 200"
    by (simp add: calculateVendorBalance_f64_def mkTxn_def toLowerCase_def toLowerChar_def
        fsub_def r)
  have inc: "contact ?inc = Some ''v1''" "contactType ?inc = Some Vendor"
    "includes_str (toLowerCase (description ?inc)) ''payment''"
    "type_t ?inc = TxnIncome" "amount ?inc = Num 30"
    by (simp_all add: mkTxn_def toLowerCase_def toLowerChar_def)
  have exp: "contact ?exp = Some ''v1''" "contactType ?exp = Some Vendor"
    "includes_str (toLowerCase (description ?exp)) ''payment''"
    "type_t ?exp = TxnExpense"
    by (simp_all add: mkTxn_def toLowerCase_def toLowerChar_def)
  have w1: "wholeLedger (?xs @ ?inc # [])"
    by (simp add: wholeLedger_def mkTxn_def)
  have w2: "wholeLedger (?xs @ ?exp # [])"
    by (simp add: wholeLedger_def mkTxn_def)
  have "calculateVendorBalance_f64 ''v1'' (?xs @ ?inc # []) =
      fsub (calculateVendorBalance_f64 ''v1'' (?xs @ [])) (amount ?inc)"
    using calculateVendorBalance_f64_payment_any_type [OF inc(1,2,3), of ?xs "[]"] w1 inc(4)
    by blast
  then have r1: "calculateVendorBalance_f64 ''v1'' (?xs @ ?inc # []) = Num 170"
    by (simp only: base inc(5)) (simp add: fsub_def r)
  have "calculateVendorBalance_f64 ''v1'' (?xs @ ?exp # []) =
      calculateVendorBalance_f64 ''v1'' (?xs @ [])"
    using calculateVendorBalance_f64_payment_any_type [OF exp(1,2,3), of ?xs "[]"] w2 exp(4)
    by blast
  then have r2: "calculateVendorBalance_f64 ''v1'' (?xs @ ?exp # []) = Num 200"
    by (simp only: base)
  from r1 r2 show ?thesis by (intro conjI)
qed






end
